theory Spec2Isabelle
  imports Main
begin

section \<open>The send orchestration of src/smtp/client.ts\<close>

text \<open>
  The client is event driven: every method runs to completion and ends either in a call
  to a collaborator (the transport \<open>this.smtp\<close>, the message entity, the caller's
  callback, the timer of the runtime) or in \<open>_poll\<close>. A closure handed to a collaborator
  is a value of the datatype \<open>cont\<close>, and the body of each closure is a function of its
  own, so that "the transport answers" is the application of that function. What the
  transport reports when the client asks (\<open>state()\<close>, \<open>authorized()\<close>) is an argument
  of the function that asks: the transport itself is not part of this file.

  Names are the source's, without the leading underscore of the private methods. The
  closures \<open>connect\<close> and \<open>begin\<close> of \<open>_connect\<close> are \<open>connect_cb\<close> and
  \<open>begin_cb\<close>; the fields \<open>from\<close> and \<open>to\<close> of a stack are \<open>stack_from\<close> and
  \<open>stack_to\<close>. An exception is the left summand of a result.
\<close>

subsection \<open>Values\<close>

text \<open>A header value: absent (\<open>undefined\<close>) or a string. \<open>truthy\<close> is the test
  JavaScript applies to it in a condition.\<close>

type_synonym hval = "string option"

definition truthy :: "hval \<Rightarrow> bool" where
  "truthy h = (case h of None \<Rightarrow> False | Some s \<Rightarrow> s \<noteq> [])"

text \<open>Modelled from the spec: the message entity (src/smtp/message.ts is absent), as far
  as the client reads it: the header accessors for from, to, cc, bcc and return-path.\<close>

record Message =
  header_from :: hval
  header_to :: hval
  header_cc :: hval
  header_bcc :: hval
  header_return_path :: hval

text \<open>Modelled from the spec: the fields of an attachment and of a plain record that
  \<open>_canMakeMessage\<close> and \<open>_isAttachmentInlinedHtml\<close> read (their types are in the
  absent src/smtp/message.ts). \<open>att_alternative\<close> is \<open>attachment.alternative === true\<close>.\<close>

record MessageAttachment =
  att_data :: hval
  att_path :: hval
  att_alternative :: bool

text \<open>The \<open>attachment\<close> field of a plain record: absent, one attachment, or an array.\<close>

datatype attachments =
  NoAttachment | OneAttachment MessageAttachment | ManyAttachments "MessageAttachment list"

record MessageHeaders =
  h_from :: hval
  h_to :: hval
  h_cc :: hval
  h_bcc :: hval
  h_text :: hval
  h_attachment :: attachments

text \<open>What \<open>send\<close> receives: a \<open>Message\<close> instance or a plain record.\<close>

datatype send_arg = Instance Message | Plain MessageHeaders

text \<open>One entry of the address parser's result.\<close>

record mailbox =
  address :: string

text \<open>\<open>stack.to\<close> at run time. \<open>send\<close> always stores an array; \<open>_sendrcpt\<close> tests for
  \<open>null\<close> and for a string.\<close>

datatype recipients = Null | Str string | Arr "mailbox list"

datatype js_error = Error string

text \<open>An exception that leaves a method: \<open>new TypeError(...)\<close> of the source, or the
  TypeError the engine raises on reading a property of \<open>undefined\<close> or on calling
  \<open>undefined\<close> (the engine's wording varies; the wording here is this file's).\<close>

datatype thrown = TypeError string

text \<open>The fields of \<open>MessageStack\<close> that \<open>send\<close> sets. \<open>callback\<close> is the caller's
  function (identified by a number) after \<open>callback || function () {}\<close>: \<open>None\<close> is the
  empty function.\<close>

record MessageStack =
  callback :: "nat option"
  message :: Message
  returnPath :: "string option"
  stack_from :: string
  stack_to :: recipients

text \<open>Modelled from the spec: the transport's state (src/smtp/smtp.ts is absent). The
  client names \<open>NOTCONNECTED\<close> and \<open>CONNECTED\<close>; the spec has a third state between
  them, here \<open>CONNECTING\<close>.\<close>

datatype SMTPState = NOTCONNECTED | CONNECTING | CONNECTED

text \<open>The \<open>next\<close> argument of \<open>_sendsmtp\<close>: one of the methods, or the arrow function
  \<open>() => this._senddone(null, stack)\<close>.\<close>

datatype next_step = Sendrcpt | Senddata | Sendmessage | Done

text \<open>The closures of the source, with the variables they capture.\<close>

datatype cont =
  KValid Message "nat option" send_arg
| KConnect MessageStack
| KBegin MessageStack
| KSendsmtp MessageStack "next_step option"
| KRset "js_error option" MessageStack
| KStream MessageStack

text \<open>A call the client makes to a collaborator. \<open>MessageStream\<close> stands for
  \<open>stack.message.stream()\<close> together with the three handlers registered on the stream.\<close>

datatype call =
  Callback "nat option" "js_error option" send_arg
| MessageValid Message cont
| MessageStream Message cont
| SmtpConnect cont
| SmtpLogin cont
| SmtpEhloOrHeloIfNeeded cont
| SmtpMail cont string
| SmtpRcpt cont string
| SmtpData cont
| SmtpMessage string
| SmtpDataEnd cont
| SmtpRset cont
| SmtpQuit
| SmtpClose

text \<open>
  The client's fields \<open>queue\<close>, \<open>sending\<close>, \<open>ready\<close>, \<open>timer\<close>, and the collaborators'
  side of the calls it makes: \<open>calls\<close> is every call so far, oldest first; \<open>pending\<close> the
  continuations handed out and not yet invoked; \<open>armed\<close> the timers of the runtime that
  are set and have neither fired nor been cleared, with their delay in milliseconds;
  \<open>fresh\<close> the handle the next \<open>setTimeout\<close> returns.
\<close>

record Client =
  queue :: "MessageStack list"
  sending :: bool
  ready :: bool
  timer :: "nat option"
  calls :: "call list"
  pending :: "cont list"
  armed :: "nat \<rightharpoonup> nat"
  fresh :: nat

definition new_client :: Client where
  "new_client = \<lparr>queue = [], sending = False, ready = False, timer = None,
     calls = [], pending = [], armed = Map.empty, fresh = 0\<rparr>"

fun handed :: "call \<Rightarrow> cont list" where
  "handed (MessageValid m k) = [k]"
| "handed (MessageStream m k) = [k]"
| "handed (SmtpConnect k) = [k]"
| "handed (SmtpLogin k) = [k]"
| "handed (SmtpEhloOrHeloIfNeeded k) = [k]"
| "handed (SmtpMail k a) = [k]"
| "handed (SmtpRcpt k a) = [k]"
| "handed (SmtpData k) = [k]"
| "handed (SmtpDataEnd k) = [k]"
| "handed (SmtpRset k) = [k]"
| "handed x = []"

definition emit :: "call \<Rightarrow> Client \<Rightarrow> Client" where
  "emit x c = c\<lparr>calls := calls c @ [x], pending := pending c @ handed x\<rparr>"

definition clearTimeout :: "nat \<Rightarrow> Client \<Rightarrow> Client" where
  "clearTimeout t c = c\<lparr>armed := (armed c)(t := None)\<rparr>"

text \<open>\<open>this.timer = setTimeout(() => this.smtp.quit(), ms)\<close>.\<close>

definition setTimeout :: "nat \<Rightarrow> Client \<Rightarrow> Client" where
  "setTimeout ms c =
     c\<lparr>timer := Some (fresh c), armed := (armed c)(fresh c \<mapsto> ms), fresh := Suc (fresh c)\<rparr>"

text \<open>The timer's function runs: \<open>this.smtp.quit()\<close>.\<close>

definition timer_fired :: "nat \<Rightarrow> Client \<Rightarrow> Client" where
  "timer_fired t c = emit SmtpQuit (c\<lparr>armed := (armed c)(t := None)\<rparr>)"

subsection \<open>The envelope steps that end in a transport call\<close>

text \<open>\<open>_sendmail\<close>, lines 220-224.\<close>

definition sendmail :: "MessageStack \<Rightarrow> Client \<Rightarrow> Client" where
  "sendmail stack c =
     (let from = (case returnPath stack of
                    None \<Rightarrow> stack_from stack
                  | Some r \<Rightarrow> if r \<noteq> [] then r else stack_from stack)
      in emit (SmtpMail (KSendsmtp stack (Some Sendrcpt)) (''<'' @ from @ ''>''))
           (c\<lparr>sending := True\<rparr>))"

text \<open>\<open>_sendrcpt\<close>, lines 231-241. \<open>stack.to.shift()\<close> of an empty array is
  \<open>undefined\<close>, and reading its \<open>address\<close> throws.\<close>

definition sendrcpt :: "MessageStack \<Rightarrow> Client \<Rightarrow> thrown + Client" where
  "sendrcpt stack c =
     (case stack_to stack of
        Null \<Rightarrow> Inl (TypeError ''stack.to must be array'')
      | Str s \<Rightarrow> Inl (TypeError ''stack.to must be array'')
      | Arr [] \<Rightarrow> Inl (TypeError ''cannot read property address of undefined'')
      | Arr (x # rest) \<Rightarrow>
          Inr (emit (SmtpRcpt
                 (KSendsmtp (stack\<lparr>stack_to := Arr rest\<rparr>)
                    (Some (if rest \<noteq> [] then Sendrcpt else Senddata)))
                 (''<'' @ address x @ ''>'')) c))"

text \<open>\<open>_senddata\<close>, lines 248-250.\<close>

definition senddata :: "MessageStack \<Rightarrow> Client \<Rightarrow> Client" where
  "senddata stack c = emit (SmtpData (KSendsmtp stack (Some Sendmessage))) c"

text \<open>\<open>_sendmessage\<close>, lines 257-273, and its three stream handlers.\<close>

definition sendmessage :: "MessageStack \<Rightarrow> Client \<Rightarrow> Client" where
  "sendmessage stack c = emit (MessageStream (message stack) (KStream stack)) c"

definition stream_data :: "string \<Rightarrow> Client \<Rightarrow> Client" where
  "stream_data chunk c = emit (SmtpMessage chunk) c"

definition stream_end :: "MessageStack \<Rightarrow> Client \<Rightarrow> Client" where
  "stream_end stack c = emit (SmtpDataEnd (KSendsmtp stack (Some Done))) c"

subsection \<open>The poll and the connect sequence\<close>

text \<open>\<open>_connect\<close>, lines 148-149.\<close>

definition connect :: "MessageStack \<Rightarrow> Client \<Rightarrow> Client" where
  "connect stack c = emit (SmtpConnect (KConnect stack)) (c\<lparr>ready := False\<rparr>)"

text \<open>\<open>_poll\<close>, lines 86-107. \<open>st\<close> is what \<open>this.smtp.state()\<close> returns.\<close>

definition poll :: "SMTPState \<Rightarrow> Client \<Rightarrow> Client" where
  "poll st c =
     (let c1 = (case timer c of None \<Rightarrow> c | Some t \<Rightarrow> clearTimeout t c) in
      if queue c1 \<noteq> [] then
        if st = NOTCONNECTED then connect (hd (queue c1)) c1
        else if st = CONNECTED \<and> \<not> sending c1 \<and> ready c1
        then sendmail (hd (queue c1)) (c1\<lparr>queue := tl (queue c1)\<rparr>)
        else c1
      else if st = CONNECTED then setTimeout 1000 c1
      else c1)"

text \<open>\<open>stack.callback(err, stack.message)\<close>.\<close>

definition invoke_callback :: "js_error option \<Rightarrow> MessageStack \<Rightarrow> Client \<Rightarrow> Client" where
  "invoke_callback err stack c = emit (Callback (callback stack) err (Instance (message stack))) c"

text \<open>\<open>this.queue.shift()\<close>: on an empty array it does nothing.\<close>

definition queue_shift :: "Client \<Rightarrow> Client" where
  "queue_shift c = c\<lparr>queue := tl (queue c)\<rparr>"

text \<open>The closure \<open>begin\<close>, lines 121-132.\<close>

definition begin_cb :: "SMTPState \<Rightarrow> MessageStack \<Rightarrow> js_error option \<Rightarrow> Client \<Rightarrow> Client" where
  "begin_cb st stack err c =
     (if err = None then poll st (c\<lparr>ready := True\<rparr>)
      else poll st (queue_shift (invoke_callback err stack c)))"

text \<open>The closure \<open>connect\<close>, lines 119-146. \<open>auth\<close> is what
  \<open>this.smtp.authorized()\<close> returns.\<close>

definition connect_cb ::
  "SMTPState \<Rightarrow> bool \<Rightarrow> MessageStack \<Rightarrow> js_error option \<Rightarrow> Client \<Rightarrow> Client" where
  "connect_cb st auth stack err c =
     (if err = None then
        if \<not> auth then emit (SmtpLogin (KBegin stack)) c
        else emit (SmtpEhloOrHeloIfNeeded (KBegin stack)) c
      else poll st (queue_shift (invoke_callback err stack c)))"

subsection \<open>Completion and the step wrapper\<close>

text \<open>\<open>_senddone\<close>, lines 281-285.\<close>

definition senddone :: "SMTPState \<Rightarrow> js_error option \<Rightarrow> MessageStack \<Rightarrow> Client \<Rightarrow> Client" where
  "senddone st err stack c = poll st (invoke_callback err stack (c\<lparr>sending := False\<rparr>))"

text \<open>\<open>next.apply(this, [stack])\<close>.\<close>

definition apply_next :: "SMTPState \<Rightarrow> next_step \<Rightarrow> MessageStack \<Rightarrow> Client \<Rightarrow> thrown + Client" where
  "apply_next st n stack c =
     (case n of
        Sendrcpt \<Rightarrow> sendrcpt stack c
      | Senddata \<Rightarrow> Inr (senddata stack c)
      | Sendmessage \<Rightarrow> Inr (sendmessage stack c)
      | Done \<Rightarrow> Inr (senddone st None stack c))"

text \<open>\<open>_sendsmtp(stack, next)\<close>, lines 199-213: the function it returns, applied to
  \<open>err\<close>.\<close>

definition sendsmtp ::
  "SMTPState \<Rightarrow> MessageStack \<Rightarrow> next_step option \<Rightarrow> js_error option \<Rightarrow> Client \<Rightarrow> thrown + Client" where
  "sendsmtp st stack next err c =
     (case (err, next) of
        (None, Some n) \<Rightarrow> apply_next st n stack c
      | _ \<Rightarrow> Inr (emit (SmtpRset (KRset err stack)) c))"

text \<open>The closure \<open>() => this._senddone(err, stack)\<close> given to \<open>rset\<close>, line 210. It
  takes no parameter: \<open>outcome\<close>, what the transport passes, is dropped.\<close>

definition rset_cb ::
  "SMTPState \<Rightarrow> js_error option \<Rightarrow> MessageStack \<Rightarrow> js_error option \<Rightarrow> Client \<Rightarrow> Client" where
  "rset_cb st err stack outcome c = senddone st err stack c"

text \<open>The stream's \<open>error\<close> handler, lines 269-272. \<open>st\<close> is what the transport reports
  after \<open>close()\<close>, when \<open>_poll\<close> asks.\<close>

definition stream_error :: "SMTPState \<Rightarrow> MessageStack \<Rightarrow> js_error \<Rightarrow> Client \<Rightarrow> Client" where
  "stream_error st stack err c = senddone st (Some err) stack (emit SmtpClose c)"

subsection \<open>The validator and the enqueue path\<close>

text \<open>\<open>_isAttachmentInlinedHtml\<close>, \<open>_containsInlinedHtml\<close> and \<open>_canMakeMessage\<close>,
  lines 157-191, as the truth value of what they return.\<close>

definition isAttachmentInlinedHtml :: "MessageAttachment \<Rightarrow> bool" where
  "isAttachmentInlinedHtml a =
     ((truthy (att_data a) \<or> truthy (att_path a)) \<and> att_alternative a)"

definition containsInlinedHtml :: "attachments \<Rightarrow> bool" where
  "containsInlinedHtml att =
     (case att of
        ManyAttachments xs \<Rightarrow> list_ex isAttachmentInlinedHtml xs
      | OneAttachment a \<Rightarrow> isAttachmentInlinedHtml a
      | NoAttachment \<Rightarrow> False)"

definition canMakeMessage :: "MessageHeaders \<Rightarrow> bool" where
  "canMakeMessage msg =
     (truthy (h_from msg) \<and>
      (truthy (h_to msg) \<or> truthy (h_cc msg) \<or> truthy (h_bcc msg)) \<and>
      (h_text msg \<noteq> None \<or> containsInlinedHtml (h_attachment msg)))"

text \<open>\<open>callback(err, msg)\<close> on the caller's own \<open>callback\<close> argument, which may be
  \<open>undefined\<close>: calling it then throws.\<close>

definition call_callback ::
  "nat option \<Rightarrow> js_error \<Rightarrow> send_arg \<Rightarrow> Client \<Rightarrow> thrown + Client" where
  "call_callback cb err msg c =
     (case cb of
        None \<Rightarrow> Inl (TypeError ''callback is not a function'')
      | Some f \<Rightarrow> Inr (emit (Callback (Some f) (Some err) msg) c))"

text \<open>\<open>send\<close>, lines 35-48, up to the call of \<open>message.valid\<close>. \<open>mk\<close> is the
  constructor \<open>new Message(msg)\<close>.\<close>

definition send ::
  "(MessageHeaders \<Rightarrow> Message) \<Rightarrow> send_arg \<Rightarrow> nat option \<Rightarrow> Client \<Rightarrow> thrown + Client" where
  "send mk msg cb c =
     (let m = (case msg of
                 Instance i \<Rightarrow> Some i
               | Plain h \<Rightarrow> if canMakeMessage h then Some (mk h) else None)
      in case m of
           None \<Rightarrow> call_callback cb (Error ''message is not a valid Message instance'') msg c
         | Some i \<Rightarrow> Inr (emit (MessageValid i (KValid i cb msg)) c))"

text \<open>Lines 50-72: the stack built for a valid message. \<open>ap\<close> is the address parser
  (a library outside this repository), applied to a header value.\<close>

definition build_stack ::
  "(hval \<Rightarrow> mailbox list) \<Rightarrow> Message \<Rightarrow> nat option \<Rightarrow> thrown + MessageStack" where
  "build_stack ap m cb =
     (case ap (header_from m) of
        [] \<Rightarrow> Inl (TypeError ''cannot read property address of undefined'')
      | sender # others \<Rightarrow>
          (let to0 = ap (header_to m);
               to1 = (if truthy (header_cc m) then to0 @ ap (header_cc m) else to0);
               to2 = (if truthy (header_bcc m) then to1 @ ap (header_bcc m) else to1);
               rp = (if truthy (header_return_path m) \<and> length (ap (header_return_path m)) \<noteq> 0
                     then Some (address (hd (ap (header_return_path m))))
                     else None)
           in Inr \<lparr>callback = cb, message = m, returnPath = rp,
                   stack_from = address sender, stack_to = Arr to2\<rparr>))"

text \<open>The continuation given to \<open>message.valid\<close>, lines 48-79.\<close>

definition valid_cb ::
  "(hval \<Rightarrow> mailbox list) \<Rightarrow> SMTPState \<Rightarrow> Message \<Rightarrow> nat option \<Rightarrow> send_arg \<Rightarrow>
     bool \<Rightarrow> string \<Rightarrow> Client \<Rightarrow> thrown + Client" where
  "valid_cb ap st m cb msg valid why c =
     (if valid then
        (case build_stack ap m cb of
           Inl e \<Rightarrow> Inl e
         | Inr stack \<Rightarrow> Inr (poll st (c\<lparr>queue := queue c @ [stack]\<rparr>)))
      else call_callback cb (Error why) msg c)"

subsection \<open>The collaborators' side\<close>

text \<open>The continuations of an envelope run: the step wrapper's, the one given to \<open>rset\<close>,
  and the stream handlers.\<close>

fun envelope :: "cont \<Rightarrow> bool" where
  "envelope (KSendsmtp s n) = True"
| "envelope (KRset e s) = True"
| "envelope (KStream s) = True"
| "envelope k = False"

fun is_callback :: "call \<Rightarrow> bool" where
  "is_callback (Callback f e m) = True"
| "is_callback x = False"

text \<open>The arguments of the RCPT commands among some calls, in the order of the calls.\<close>

fun rcpt_args :: "call list \<Rightarrow> string list" where
  "rcpt_args [] = []"
| "rcpt_args (SmtpRcpt k a # xs) = a # rcpt_args xs"
| "rcpt_args (x # xs) = rcpt_args xs"

text \<open>A collaborator invokes a continuation it was given: it is no longer pending.\<close>

definition consume :: "cont \<Rightarrow> Client \<Rightarrow> Client" where
  "consume k c = c\<lparr>pending := remove1 k (pending c)\<rparr>"

text \<open>The transport accepts the command it was given last: it invokes that command's
  continuation with no error. \<open>accept n\<close> does so \<open>n\<close> times in a row.\<close>

definition accept1 :: "SMTPState \<Rightarrow> Client \<Rightarrow> thrown + Client" where
  "accept1 st c =
     (case rev (pending c) of
        KSendsmtp s n # older \<Rightarrow> sendsmtp st s n None (c\<lparr>pending := rev older\<rparr>)
      | _ \<Rightarrow> Inr c)"

fun accept :: "nat \<Rightarrow> SMTPState \<Rightarrow> Client \<Rightarrow> thrown + Client" where
  "accept 0 st c = Inr c"
| "accept (Suc n) st c =
     (case accept1 st c of Inl e \<Rightarrow> Inl e | Inr c' \<Rightarrow> accept n st c')"

text \<open>
  The states the client reaches from a new client when its collaborators keep to their
  interface: a continuation is invoked only if it was handed out, and once; a stream
  produces chunks and then ends or fails; a timer fires only while it is armed; the
  caller's callback returns without calling \<open>send\<close>. What the transport reports, what
  the parser and the constructor return and what the validation says are arbitrary at
  each step. A step that throws has no successor.
\<close>

inductive reachable :: "Client \<Rightarrow> bool" where
  start: "reachable new_client"
| submit: "reachable c \<Longrightarrow> send mk msg cb c = Inr c' \<Longrightarrow> reachable c'"
| verdict: "reachable c \<Longrightarrow> KValid m cb msg \<in> set (pending c) \<Longrightarrow>
     valid_cb ap st m cb msg valid why (consume (KValid m cb msg) c) = Inr c' \<Longrightarrow> reachable c'"
| connected: "reachable c \<Longrightarrow> KConnect s \<in> set (pending c) \<Longrightarrow>
     reachable (connect_cb st auth s err (consume (KConnect s) c))"
| begun: "reachable c \<Longrightarrow> KBegin s \<in> set (pending c) \<Longrightarrow>
     reachable (begin_cb st s err (consume (KBegin s) c))"
| step: "reachable c \<Longrightarrow> KSendsmtp s n \<in> set (pending c) \<Longrightarrow>
     sendsmtp st s n err (consume (KSendsmtp s n) c) = Inr c' \<Longrightarrow> reachable c'"
| reset: "reachable c \<Longrightarrow> KRset e s \<in> set (pending c) \<Longrightarrow>
     reachable (rset_cb st e s outcome (consume (KRset e s) c))"
| chunk: "reachable c \<Longrightarrow> KStream s \<in> set (pending c) \<Longrightarrow> reachable (stream_data d c)"
| ended: "reachable c \<Longrightarrow> KStream s \<in> set (pending c) \<Longrightarrow>
     reachable (stream_end s (consume (KStream s) c))"
| failed: "reachable c \<Longrightarrow> KStream s \<in> set (pending c) \<Longrightarrow>
     reachable (stream_error st s e (consume (KStream s) c))"
| fired: "reachable c \<Longrightarrow> armed c t = Some ms \<Longrightarrow> reachable (timer_fired t c)"

text \<open>At most one envelope run is under way, and \<open>sending\<close> says whether one is.\<close>

definition single_flight :: "Client \<Rightarrow> bool" where
  "single_flight c = (length (filter envelope (pending c)) = (if sending c then 1 else 0))"

text \<open>Does the text \<open>s\<close> contain the text \<open>p\<close>?\<close>

fun starts_with :: "string \<Rightarrow> string \<Rightarrow> bool" where
  "starts_with s [] = True"
| "starts_with [] (p # ps) = False"
| "starts_with (x # xs) (p # ps) = (x = p \<and> starts_with xs ps)"

fun contains :: "string \<Rightarrow> string \<Rightarrow> bool" where
  "contains [] p = (p = [])"
| "contains (x # xs) p = (starts_with (x # xs) p \<or> contains xs p)"

subsection \<open>Concrete inputs\<close>

text \<open>A stand-in for the address parser on comma-separated header values without
  blanks: no entry for an absent or empty header; a part that holds \<open>@\<close> is an address;
  any other part is a display name, and its entry has the empty address.\<close>

fun split_commas :: "string \<Rightarrow> string \<Rightarrow> string list" where
  "split_commas acc [] = [rev acc]"
| "split_commas acc (x # xs) =
     (if x = CHR '','' then rev acc # split_commas [] xs else split_commas (x # acc) xs)"

definition simple_parser :: "hval \<Rightarrow> mailbox list" where
  "simple_parser h =
     (case h of
        None \<Rightarrow> []
      | Some s \<Rightarrow>
          map (\<lambda>a. \<lparr>address = (if CHR ''@'' \<in> set a then a else [])\<rparr>)
            (filter (\<lambda>a. a \<noteq> []) (split_commas [] s)))"

text \<open>A stand-in for the constructor: it copies the headers.\<close>

definition copy_headers :: "MessageHeaders \<Rightarrow> Message" where
  "copy_headers h =
     \<lparr>header_from = h_from h, header_to = h_to h, header_cc = h_cc h, header_bcc = h_bcc h,
      header_return_path = None\<rparr>"

definition msgA :: Message where
  "msgA = \<lparr>header_from = Some ''a@x.com'', header_to = Some ''t1@y.com,t2@y.com'',
     header_cc = Some ''c1@y.com'', header_bcc = Some ''t1@y.com'', header_return_path = None\<rparr>"

definition msgB :: Message where
  "msgB = \<lparr>header_from = Some ''a@x.com'', header_to = Some ''b@y.com'',
     header_cc = None, header_bcc = None, header_return_path = Some ''postmaster''\<rparr>"

definition msgC :: Message where
  "msgC = \<lparr>header_from = Some ''sender'', header_to = Some ''b@y.com'',
     header_cc = None, header_bcc = None, header_return_path = Some ''bounce@x.com''\<rparr>"

definition msgD :: Message where
  "msgD = \<lparr>header_from = Some '','', header_to = Some ''b@y.com'',
     header_cc = None, header_bcc = None, header_return_path = None\<rparr>"

definition stackA :: MessageStack where
  "stackA = \<lparr>callback = Some 0, message = msgA, returnPath = None, stack_from = ''a@x.com'',
     stack_to = Arr [\<lparr>address = ''t1@y.com''\<rparr>, \<lparr>address = ''t2@y.com''\<rparr>,
                     \<lparr>address = ''c1@y.com''\<rparr>, \<lparr>address = ''t1@y.com''\<rparr>]\<rparr>"

definition stackB :: MessageStack where
  "stackB = \<lparr>callback = Some 1, message = msgB, returnPath = Some [], stack_from = ''a@x.com'',
     stack_to = Arr [\<lparr>address = ''b@y.com''\<rparr>]\<rparr>"

definition stackC :: MessageStack where
  "stackC = \<lparr>callback = None, message = msgC, returnPath = Some ''bounce@x.com'',
     stack_from = [], stack_to = Arr [\<lparr>address = ''b@y.com''\<rparr>]\<rparr>"

definition no_recipients :: MessageHeaders where
  "no_recipients = \<lparr>h_from = Some ''a@x.com'', h_to = None, h_cc = None, h_bcc = None,
     h_text = Some ''hello'', h_attachment = NoAttachment\<rparr>"

definition no_sender :: MessageHeaders where
  "no_sender = \<lparr>h_from = None, h_to = Some ''b@y.com'', h_cc = None, h_bcc = None,
     h_text = Some ''hello'', h_attachment = NoAttachment\<rparr>"

definition queued :: Client where
  "queued = new_client\<lparr>queue := [stackA, stackB], ready := True\<rparr>"

definition idle :: Client where
  "idle = new_client\<lparr>ready := True, timer := Some 0, armed := [0 \<mapsto> 1000], fresh := 1\<rparr>"

definition busy :: Client where
  "busy = new_client\<lparr>queue := [stackB], sending := True, ready := True,
     pending := [KStream stackA]\<rparr>"

definition connecting :: Client where
  "connecting = new_client\<lparr>queue := [stackA, stackB], calls := [SmtpConnect (KConnect stackA)],
     pending := [KConnect stackA]\<rparr>"

definition sending_A :: Client where
  "sending_A = new_client\<lparr>sending := True, ready := True,
     calls := [MessageValid msgA (KValid msgA (Some 0) (Instance msgA)),
               SmtpConnect (KConnect stackA), SmtpLogin (KBegin stackA),
               SmtpMail (KSendsmtp stackA (Some Sendrcpt)) ''<a@x.com>''],
     pending := [KSendsmtp stackA (Some Sendrcpt)]\<rparr>"

section \<open>Properties\<close>

lemmas poll_defs = poll_def clearTimeout_def setTimeout_def connect_def sendmail_def emit_def Let_def

subsection \<open>The poll\<close>

lemma poll_armed:
  "armed (poll st c) =
     (if queue c = [] \<and> st = CONNECTED
      then (case timer c of None \<Rightarrow> armed c | Some t \<Rightarrow> (armed c)(t := None))(fresh c \<mapsto> 1000)
      else (case timer c of None \<Rightarrow> armed c | Some t \<Rightarrow> (armed c)(t := None)))"
  by (simp add: poll_defs split: option.splits)

lemma poll_cancels:
  "timer c = Some t \<and> t \<noteq> fresh c \<longrightarrow> armed (poll st c) t = None"
  by (simp add: poll_armed)

lemma poll_connect:
  "queue c \<noteq> [] \<and> st = NOTCONNECTED \<longrightarrow>
     queue (poll st c) = queue c \<and> \<not> ready (poll st c) \<and> sending (poll st c) = sending c \<and>
     calls (poll st c) = calls c @ [SmtpConnect (KConnect (hd (queue c)))]"
  by (simp add: poll_defs split: option.splits)

lemma poll_send:
  "queue c \<noteq> [] \<and> st = CONNECTED \<and> \<not> sending c \<and> ready c \<longrightarrow>
     queue (poll st c) = tl (queue c) \<and> sending (poll st c) \<and>
     (\<exists>a. calls (poll st c) = calls c @ [SmtpMail (KSendsmtp (hd (queue c)) (Some Sendrcpt)) a])"
  by (simp add: poll_defs split: option.splits)

lemma poll_wait:
  "queue c \<noteq> [] \<and> st \<noteq> NOTCONNECTED \<and> (st \<noteq> CONNECTED \<or> sending c \<or> \<not> ready c) \<longrightarrow>
     queue (poll st c) = queue c \<and> sending (poll st c) = sending c \<and>
     ready (poll st c) = ready c \<and> calls (poll st c) = calls c"
  by (auto simp add: poll_defs split: option.splits)

lemma poll_idle:
  "queue c = [] \<and> st = CONNECTED \<longrightarrow>
     timer (poll st c) = Some (fresh c) \<and> armed (poll st c) (fresh c) = Some 1000 \<and>
     calls (poll st c) = calls c \<and>
     calls (timer_fired (fresh c) (poll st c)) = calls c @ [SmtpQuit]"
  by (simp add: poll_defs timer_fired_def split: option.splits)

lemma poll_nothing:
  "queue c = [] \<and> st \<noteq> CONNECTED \<longrightarrow>
     timer (poll st c) = timer c \<and> calls (poll st c) = calls c \<and>
     (\<forall>t. armed (poll st c) t \<noteq> None \<longrightarrow> armed c t \<noteq> None)"
  by (simp add: poll_defs split: option.splits)

text \<open>
  C1. Each run of the poll first clears the timer whose handle the client holds, so that
  timer is no longer armed afterwards. Then: with a non-empty queue and the transport
  NOTCONNECTED, it calls \<open>connect\<close> on the transport for the head and leaves the queue as
  it is; with a non-empty queue, the transport CONNECTED, no send in flight and \<open>ready\<close>
  set, it removes the head from the queue, sets \<open>sending\<close> and issues MAIL for it; with a
  non-empty queue otherwise, it does nothing more. With an empty queue and the transport
  CONNECTED it arms one timer of 1000 ms, and that timer's firing calls \<open>quit\<close> on the
  transport; with an empty queue and any other transport state no timer is armed and
  nothing is called.
\<close>

theorem poll_spec:
  "armed (poll st c) =
     (if queue c = [] \<and> st = CONNECTED
      then (case timer c of None \<Rightarrow> armed c | Some t \<Rightarrow> (armed c)(t := None))(fresh c \<mapsto> 1000)
      else (case timer c of None \<Rightarrow> armed c | Some t \<Rightarrow> (armed c)(t := None))) \<and>
   (\<forall>t. timer c = Some t \<and> t \<noteq> fresh c \<longrightarrow> armed (poll st c) t = None) \<and>
   (queue c \<noteq> [] \<and> st = NOTCONNECTED \<longrightarrow>
      queue (poll st c) = queue c \<and> \<not> ready (poll st c) \<and> sending (poll st c) = sending c \<and>
      calls (poll st c) = calls c @ [SmtpConnect (KConnect (hd (queue c)))]) \<and>
   (queue c \<noteq> [] \<and> st = CONNECTED \<and> \<not> sending c \<and> ready c \<longrightarrow>
      queue (poll st c) = tl (queue c) \<and> sending (poll st c) \<and>
      (\<exists>a. calls (poll st c) =
         calls c @ [SmtpMail (KSendsmtp (hd (queue c)) (Some Sendrcpt)) a])) \<and>
   (queue c \<noteq> [] \<and> st \<noteq> NOTCONNECTED \<and> (st \<noteq> CONNECTED \<or> sending c \<or> \<not> ready c) \<longrightarrow>
      queue (poll st c) = queue c \<and> sending (poll st c) = sending c \<and>
      ready (poll st c) = ready c \<and> calls (poll st c) = calls c) \<and>
   (queue c = [] \<and> st = CONNECTED \<longrightarrow>
      timer (poll st c) = Some (fresh c) \<and> armed (poll st c) (fresh c) = Some 1000 \<and>
      calls (poll st c) = calls c \<and>
      calls (timer_fired (fresh c) (poll st c)) = calls c @ [SmtpQuit]) \<and>
   (queue c = [] \<and> st \<noteq> CONNECTED \<longrightarrow>
      timer (poll st c) = timer c \<and> calls (poll st c) = calls c \<and>
      (\<forall>t. armed (poll st c) t \<noteq> None \<longrightarrow> armed c t \<noteq> None))"
proof -
  have "\<forall>t. timer c = Some t \<and> t \<noteq> fresh c \<longrightarrow> armed (poll st c) t = None"
    using poll_cancels by blast
  with poll_armed [of st c] poll_connect [of c st] poll_send [of c st] poll_wait [of c st]
    poll_idle [of c st] poll_nothing [of c st]
  show ?thesis by blast
qed

theorem poll_spec_witness:
  "queue queued \<noteq> [] \<and>
   queue (poll NOTCONNECTED queued) = [stackA, stackB] \<and>
   calls (poll NOTCONNECTED queued) = [SmtpConnect (KConnect stackA)] \<and>
   ready queued \<and> \<not> sending queued \<and>
   queue (poll CONNECTED queued) = [stackB] \<and> sending (poll CONNECTED queued) \<and>
   calls (poll CONNECTED queued) = [SmtpMail (KSendsmtp stackA (Some Sendrcpt)) ''<a@x.com>''] \<and>
   calls (poll CONNECTING queued) = [] \<and> queue (poll CONNECTING queued) = [stackA, stackB] \<and>
   queue idle = [] \<and> timer idle = Some 0 \<and> armed idle 0 = Some 1000 \<and>
   armed (poll CONNECTED idle) 0 = None \<and> armed (poll CONNECTED idle) 1 = Some 1000 \<and>
   timer (poll CONNECTED idle) = Some 1 \<and>
   calls (timer_fired 1 (poll CONNECTED idle)) = [SmtpQuit] \<and>
   armed (poll NOTCONNECTED idle) 0 = None \<and> armed (poll NOTCONNECTED idle) 1 = None \<and>
   calls (poll NOTCONNECTED idle) = []"
  using poll_spec [of NOTCONNECTED queued] poll_spec [of CONNECTED queued]
    poll_spec [of CONNECTING queued] poll_spec [of CONNECTED idle]
    poll_spec [of NOTCONNECTED idle]
  by (simp add: queued_def idle_def new_client_def stackA_def poll_defs timer_fired_def)

subsection \<open>The step wrapper and the completion\<close>

lemma senddone_eq:
  "senddone st err stack c =
     poll st (c\<lparr>sending := False,
               calls := calls c @ [Callback (callback stack) err (Instance (message stack))]\<rparr>)"
  by (simp add: senddone_def invoke_callback_def emit_def)

lemma sendsmtp_failure:
  "sendsmtp st stack next (Some e) c =
     Inr (c\<lparr>calls := calls c @ [SmtpRset (KRset (Some e) stack)],
             pending := pending c @ [KRset (Some e) stack]\<rparr>)"
  by (simp add: sendsmtp_def emit_def)

lemma sendrcpt_issue:
  "stack_to stack = Arr (r # rs) \<Longrightarrow>
     sendrcpt stack c =
       Inr (c\<lparr>calls := calls c @
                 [SmtpRcpt (KSendsmtp (stack\<lparr>stack_to := Arr rs\<rparr>)
                     (Some (if rs \<noteq> [] then Sendrcpt else Senddata)))
                   (''<'' @ address r @ ''>'')],
               pending := pending c @
                 [KSendsmtp (stack\<lparr>stack_to := Arr rs\<rparr>)
                    (Some (if rs \<noteq> [] then Sendrcpt else Senddata))]\<rparr>)"
  by (simp add: sendrcpt_def emit_def)

text \<open>
  C2. The continuation of every envelope command (MAIL, RCPT, DATA, end of data) is the
  step wrapper with the stack and a next step. Invoked with no error, the wrapper runs
  that next step on the same stack. Invoked with an error, whatever the step, it calls
  \<open>rset\<close> on the transport and nothing else; the continuation given to \<open>rset\<close> drops
  what the transport passes to it, clears \<open>sending\<close>, invokes the stack's callback with
  the step's error and runs the poll.
\<close>

theorem sendsmtp_uniform:
  "sendsmtp st stack (Some Sendrcpt) None c = sendrcpt stack c \<and>
   sendsmtp st stack (Some Senddata) None c = Inr (senddata stack c) \<and>
   sendsmtp st stack (Some Sendmessage) None c = Inr (sendmessage stack c) \<and>
   sendsmtp st stack (Some Done) None c = Inr (senddone st None stack c) \<and>
   sendsmtp st stack next (Some e) c =
     Inr (c\<lparr>calls := calls c @ [SmtpRset (KRset (Some e) stack)],
             pending := pending c @ [KRset (Some e) stack]\<rparr>) \<and>
   rset_cb st (Some e) stack outcome c =
     poll st (c\<lparr>sending := False,
               calls := calls c @
                 [Callback (callback stack) (Some e) (Instance (message stack))]\<rparr>) \<and>
   (\<exists>a. calls (sendmail stack c) = calls c @ [SmtpMail (KSendsmtp stack (Some Sendrcpt)) a]) \<and>
   (\<forall>r rs. stack_to stack = Arr (r # rs) \<longrightarrow>
      (\<exists>c' s n a. sendrcpt stack c = Inr c' \<and>
         calls c' = calls c @ [SmtpRcpt (KSendsmtp s (Some n)) a])) \<and>
   calls (senddata stack c) = calls c @ [SmtpData (KSendsmtp stack (Some Sendmessage))] \<and>
   calls (stream_end stack c) = calls c @ [SmtpDataEnd (KSendsmtp stack (Some Done))]"
proof -
  have ok: "sendsmtp st stack (Some Sendrcpt) None c = sendrcpt stack c"
    "sendsmtp st stack (Some Senddata) None c = Inr (senddata stack c)"
    "sendsmtp st stack (Some Sendmessage) None c = Inr (sendmessage stack c)"
    "sendsmtp st stack (Some Done) None c = Inr (senddone st None stack c)"
    by (simp_all add: sendsmtp_def apply_next_def)
  have rs: "rset_cb st (Some e) stack outcome c =
     poll st (c\<lparr>sending := False,
               calls := calls c @
                 [Callback (callback stack) (Some e) (Instance (message stack))]\<rparr>)"
    by (simp add: rset_cb_def senddone_eq)
  have mail: "\<exists>a. calls (sendmail stack c) =
      calls c @ [SmtpMail (KSendsmtp stack (Some Sendrcpt)) a]"
    by (simp add: sendmail_def emit_def Let_def)
  have rcpt: "\<forall>r rs. stack_to stack = Arr (r # rs) \<longrightarrow>
      (\<exists>c' s n a. sendrcpt stack c = Inr c' \<and>
         calls c' = calls c @ [SmtpRcpt (KSendsmtp s (Some n)) a])"
    by (simp add: sendrcpt_issue)
  have rest: "calls (senddata stack c) = calls c @ [SmtpData (KSendsmtp stack (Some Sendmessage))]"
    "calls (stream_end stack c) = calls c @ [SmtpDataEnd (KSendsmtp stack (Some Done))]"
    by (simp_all add: senddata_def stream_end_def emit_def)
  from ok sendsmtp_failure [of st stack "next" e c] rs mail rcpt rest show ?thesis
    by (intro conjI)
qed

theorem sendsmtp_uniform_witness:
  "stack_to stackA = Arr (\<lparr>address = ''t1@y.com''\<rparr> #
     [\<lparr>address = ''t2@y.com''\<rparr>, \<lparr>address = ''c1@y.com''\<rparr>, \<lparr>address = ''t1@y.com''\<rparr>]) \<and>
   calls (projr (sendrcpt stackA busy)) =
     [SmtpRcpt (KSendsmtp (stackA\<lparr>stack_to := Arr [\<lparr>address = ''t2@y.com''\<rparr>,
        \<lparr>address = ''c1@y.com''\<rparr>, \<lparr>address = ''t1@y.com''\<rparr>]\<rparr>) (Some Sendrcpt)) ''<t1@y.com>''] \<and>
   calls (projr (sendsmtp CONNECTED stackA (Some Senddata) (Some (Error ''550'')) busy)) =
     [SmtpRset (KRset (Some (Error ''550'')) stackA)] \<and>
   sending (projr (sendsmtp CONNECTED stackA (Some Senddata) (Some (Error ''550'')) busy)) \<and>
   \<not> sending (rset_cb NOTCONNECTED (Some (Error ''550'')) stackA (Some (Error ''reset failed'')) busy) \<and>
   calls (rset_cb CONNECTING (Some (Error ''550'')) stackA (Some (Error ''reset failed'')) busy) =
     [Callback (Some 0) (Some (Error ''550'')) (Instance msgA)]"
  using sendsmtp_uniform [of CONNECTED stackA busy "Some Senddata" "Error ''550''"]
    sendsmtp_uniform [of NOTCONNECTED stackA busy "Some Senddata" "Error ''550''"
      "Some (Error ''reset failed'')"]
    sendsmtp_uniform [of CONNECTING stackA busy "Some Senddata" "Error ''550''"
      "Some (Error ''reset failed'')"]
  by (simp add: busy_def new_client_def stackA_def poll_defs sendrcpt_def)

subsection \<open>The connect sequence\<close>

lemma connect_cb_failure:
  "connect_cb st auth stack (Some e) c =
     poll st (c\<lparr>calls := calls c @ [Callback (callback stack) (Some e) (Instance (message stack))],
               queue := tl (queue c)\<rparr>)"
  by (simp add: connect_cb_def queue_shift_def invoke_callback_def emit_def)

lemma begin_cb_failure:
  "begin_cb st stack (Some e) c =
     poll st (c\<lparr>calls := calls c @ [Callback (callback stack) (Some e) (Instance (message stack))],
               queue := tl (queue c)\<rparr>)"
  by (simp add: begin_cb_def queue_shift_def invoke_callback_def emit_def)

lemma poll_callbacks:
  "filter is_callback (calls (poll st c)) = filter is_callback (calls c)"
  by (simp add: poll_defs split: option.splits)

lemma poll_queue_not_ready:
  "\<not> ready c \<Longrightarrow> queue (poll st c) = queue c"
  by (simp add: poll_defs split: option.splits)

text \<open>
  C3. When the connect sequence of the head fails, at the connect step or at the login or
  greeting continuation, the handler invokes the callback of that stack with the error,
  removes the head of the queue and runs the poll. While \<open>ready\<close> is unset, as
  \<open>_connect\<close> leaves it, the queue afterwards is the old queue without its head, in the
  same order, and the only callback invoked is the head's. When the continuation
  succeeds, \<open>ready\<close> is set and the poll runs on an unchanged queue; when the connect
  step succeeds, the queue is unchanged and login (not authorized) or the greeting
  (authorized) is called.
\<close>

theorem connect_failure:
  "connect_cb st auth stack (Some e) c =
     poll st (c\<lparr>calls := calls c @ [Callback (callback stack) (Some e) (Instance (message stack))],
               queue := tl (queue c)\<rparr>) \<and>
   begin_cb st stack (Some e) c =
     poll st (c\<lparr>calls := calls c @ [Callback (callback stack) (Some e) (Instance (message stack))],
               queue := tl (queue c)\<rparr>) \<and>
   begin_cb st stack None c = poll st (c\<lparr>ready := True\<rparr>) \<and>
   \<not> ready (connect stack c) \<and>
   (queue c = stack # rest \<and> \<not> ready c \<longrightarrow>
      queue (connect_cb st auth stack (Some e) c) = rest \<and>
      queue (begin_cb st stack (Some e) c) = rest \<and>
      filter is_callback (calls (connect_cb st auth stack (Some e) c)) =
        filter is_callback (calls c) @
          [Callback (callback stack) (Some e) (Instance (message stack))] \<and>
      filter is_callback (calls (begin_cb st stack (Some e) c)) =
        filter is_callback (calls c) @
          [Callback (callback stack) (Some e) (Instance (message stack))]) \<and>
   queue (connect_cb st auth stack None c) = queue c \<and>
   calls (connect_cb st auth stack None c) =
     calls c @ [if auth then SmtpEhloOrHeloIfNeeded (KBegin stack) else SmtpLogin (KBegin stack)]"
proof -
  have ok: "begin_cb st stack None c = poll st (c\<lparr>ready := True\<rparr>)"
    by (simp add: begin_cb_def)
  have nr: "\<not> ready (connect stack c)"
    by (simp add: connect_def emit_def)
  have cbs: "filter is_callback (calls (connect_cb st auth stack (Some e) c)) =
        filter is_callback (calls c) @
          [Callback (callback stack) (Some e) (Instance (message stack))]"
    "filter is_callback (calls (begin_cb st stack (Some e) c)) =
        filter is_callback (calls c) @
          [Callback (callback stack) (Some e) (Instance (message stack))]"
    by (simp_all add: connect_cb_failure begin_cb_failure poll_callbacks)
  have qq: "queue c = stack # rest \<and> \<not> ready c \<longrightarrow>
      queue (connect_cb st auth stack (Some e) c) = rest \<and>
      queue (begin_cb st stack (Some e) c) = rest"
    by (simp add: connect_cb_failure begin_cb_failure poll_queue_not_ready)
  have q: "queue c = stack # rest \<and> \<not> ready c \<longrightarrow>
      queue (connect_cb st auth stack (Some e) c) = rest \<and>
      queue (begin_cb st stack (Some e) c) = rest \<and>
      filter is_callback (calls (connect_cb st auth stack (Some e) c)) =
        filter is_callback (calls c) @
          [Callback (callback stack) (Some e) (Instance (message stack))] \<and>
      filter is_callback (calls (begin_cb st stack (Some e) c)) =
        filter is_callback (calls c) @
          [Callback (callback stack) (Some e) (Instance (message stack))]"
    using cbs qq by blast
  have succ: "queue (connect_cb st auth stack None c) = queue c"
    "calls (connect_cb st auth stack None c) =
     calls c @ [if auth then SmtpEhloOrHeloIfNeeded (KBegin stack) else SmtpLogin (KBegin stack)]"
    by (simp_all add: connect_cb_def emit_def)
  from connect_cb_failure [of st auth stack e c] begin_cb_failure [of st stack e c]
    ok nr q succ
  show ?thesis by (intro conjI)
qed

theorem connect_failure_witness:
  "queue connecting = stackA # [stackB] \<and> \<not> ready connecting \<and>
   queue (connect_cb NOTCONNECTED False stackA (Some (Error ''refused'')) connecting) = [stackB] \<and>
   calls (connect_cb NOTCONNECTED False stackA (Some (Error ''refused'')) connecting) =
     [SmtpConnect (KConnect stackA), Callback (Some 0) (Some (Error ''refused'')) (Instance msgA),
      SmtpConnect (KConnect stackB)] \<and>
   queue (begin_cb CONNECTED stackA (Some (Error ''auth'')) connecting) = [stackB] \<and>
   calls (begin_cb CONNECTED stackA (Some (Error ''auth'')) connecting) =
     [SmtpConnect (KConnect stackA), Callback (Some 0) (Some (Error ''auth'')) (Instance msgA)] \<and>
   queue (begin_cb CONNECTED stackA None connecting) = [stackB] \<and>
   ready (begin_cb CONNECTED stackA None connecting) \<and>
   sending (begin_cb CONNECTED stackA None connecting)"
  using connect_failure [of NOTCONNECTED False stackA "Error ''refused''" connecting "[stackB]"]
    connect_failure [of CONNECTED False stackA "Error ''auth''" connecting "[stackB]"]
  by (simp add: connecting_def new_client_def stackA_def poll_defs)

subsection \<open>A failing body stream\<close>

text \<open>
  C5. When the body stream fails, the handler calls \<open>close\<close> on the transport (and not
  \<open>rset\<close>), clears \<open>sending\<close>, invokes the stack's callback with the stream's error and
  runs the poll. With the transport reporting NOTCONNECTED after the close: a message
  already queued gets a connect sequence at once, the queue unchanged; with an empty
  queue nothing more is called, and a message accepted afterwards gets a connect
  sequence before any envelope command.
\<close>

theorem stream_failure:
  "stream_error st stack e c =
     poll st (c\<lparr>sending := False,
               calls := calls c @
                 [SmtpClose, Callback (callback stack) (Some e) (Instance (message stack))]\<rparr>) \<and>
   (queue c \<noteq> [] \<longrightarrow>
      calls (stream_error NOTCONNECTED stack e c) =
        calls c @ [SmtpClose, Callback (callback stack) (Some e) (Instance (message stack)),
                   SmtpConnect (KConnect (hd (queue c)))] \<and>
      \<not> sending (stream_error NOTCONNECTED stack e c) \<and>
      \<not> ready (stream_error NOTCONNECTED stack e c) \<and>
      queue (stream_error NOTCONNECTED stack e c) = queue c) \<and>
   (queue c = [] \<longrightarrow>
      calls (stream_error NOTCONNECTED stack e c) =
        calls c @ [SmtpClose, Callback (callback stack) (Some e) (Instance (message stack))] \<and>
      \<not> sending (stream_error NOTCONNECTED stack e c) \<and>
      (\<forall>ap m cb msg why s. build_stack ap m cb = Inr s \<longrightarrow>
         (\<exists>c2. valid_cb ap NOTCONNECTED m cb msg True why (stream_error NOTCONNECTED stack e c)
                  = Inr c2 \<and>
            calls c2 =
              calls c @ [SmtpClose, Callback (callback stack) (Some e) (Instance (message stack)),
                         SmtpConnect (KConnect s)] \<and>
            queue c2 = [s] \<and> \<not> sending c2)))"
proof -
  have eq: "stream_error st stack e c =
     poll st (c\<lparr>sending := False,
               calls := calls c @
                 [SmtpClose, Callback (callback stack) (Some e) (Instance (message stack))]\<rparr>)"
    for st
    by (simp add: stream_error_def senddone_eq emit_def)
  have queued: "queue c \<noteq> [] \<longrightarrow>
      calls (stream_error NOTCONNECTED stack e c) =
        calls c @ [SmtpClose, Callback (callback stack) (Some e) (Instance (message stack)),
                   SmtpConnect (KConnect (hd (queue c)))] \<and>
      \<not> sending (stream_error NOTCONNECTED stack e c) \<and>
      \<not> ready (stream_error NOTCONNECTED stack e c) \<and>
      queue (stream_error NOTCONNECTED stack e c) = queue c"
    by (simp add: eq poll_defs split: option.splits)
  have empty: "queue c = [] \<longrightarrow>
      calls (stream_error NOTCONNECTED stack e c) =
        calls c @ [SmtpClose, Callback (callback stack) (Some e) (Instance (message stack))] \<and>
      \<not> sending (stream_error NOTCONNECTED stack e c) \<and>
      (\<forall>ap m cb msg why s. build_stack ap m cb = Inr s \<longrightarrow>
         (\<exists>c2. valid_cb ap NOTCONNECTED m cb msg True why (stream_error NOTCONNECTED stack e c)
                  = Inr c2 \<and>
            calls c2 =
              calls c @ [SmtpClose, Callback (callback stack) (Some e) (Instance (message stack)),
                         SmtpConnect (KConnect s)] \<and>
            queue c2 = [s] \<and> \<not> sending c2))"
    by (simp add: eq valid_cb_def poll_defs split: option.splits)
  from eq [of st] queued empty show ?thesis by (intro conjI)
qed

theorem stream_failure_witness:
  "queue busy \<noteq> [] \<and> sending busy \<and>
   calls (stream_error NOTCONNECTED stackA (Error ''unreadable'') busy) =
     [SmtpClose, Callback (Some 0) (Some (Error ''unreadable'')) (Instance msgA),
      SmtpConnect (KConnect stackB)] \<and>
   \<not> sending (stream_error NOTCONNECTED stackA (Error ''unreadable'') busy) \<and>
   queue (stream_error NOTCONNECTED stackA (Error ''unreadable'') busy) = [stackB] \<and>
   queue (busy\<lparr>queue := []\<rparr>) = [] \<and>
   build_stack simple_parser msgC None = Inr stackC \<and>
   calls (projr (valid_cb simple_parser NOTCONNECTED msgC None (Instance msgC) True []
      (stream_error NOTCONNECTED stackA (Error ''unreadable'') (busy\<lparr>queue := []\<rparr>)))) =
     [SmtpClose, Callback (Some 0) (Some (Error ''unreadable'')) (Instance msgA),
      SmtpConnect (KConnect stackC)]"
proof -
  let ?E = "Error ''unreadable''"
  let ?idle = "busy\<lparr>queue := []\<rparr>"
  have b: "build_stack simple_parser msgC None = Inr stackC"
    by (simp add: build_stack_def simple_parser_def msgC_def stackC_def truthy_def)
  have q: "queue busy \<noteq> []" and s: "sending busy" and q': "queue ?idle = []"
    by (simp_all add: busy_def new_client_def)
  have one: "calls (stream_error NOTCONNECTED stackA ?E busy) =
        calls busy @ [SmtpClose, Callback (callback stackA) (Some ?E) (Instance (message stackA)),
                   SmtpConnect (KConnect (hd (queue busy)))] \<and>
      \<not> sending (stream_error NOTCONNECTED stackA ?E busy) \<and>
      queue (stream_error NOTCONNECTED stackA ?E busy) = queue busy"
    using stream_failure [of NOTCONNECTED stackA ?E busy] q by blast
  have "\<exists>c2. valid_cb simple_parser NOTCONNECTED msgC None (Instance msgC) True []
                 (stream_error NOTCONNECTED stackA ?E ?idle) = Inr c2 \<and>
            calls c2 =
              calls ?idle @ [SmtpClose, Callback (callback stackA) (Some ?E) (Instance (message stackA)),
                         SmtpConnect (KConnect stackC)]"
    using stream_failure [of NOTCONNECTED stackA ?E ?idle] q' b by blast
  then have two: "calls (projr (valid_cb simple_parser NOTCONNECTED msgC None (Instance msgC) True []
      (stream_error NOTCONNECTED stackA ?E ?idle))) =
       calls ?idle @ [SmtpClose, Callback (callback stackA) (Some ?E) (Instance (message stackA)),
                         SmtpConnect (KConnect stackC)]"
    by auto
  have vals: "calls busy = []" "calls ?idle = []" "callback stackA = Some 0"
    "message stackA = msgA" "hd (queue busy) = stackB" "queue busy = [stackB]"
    by (simp_all add: busy_def new_client_def stackA_def)
  from q s q' b one two show ?thesis
    by (simp add: vals)
qed

subsection \<open>Faults\<close>

text \<open>
  C7. Entered with a recipient collection that is \<open>null\<close>, a string or an empty array,
  the RCPT step throws a TypeError: the guard's for \<open>null\<close> and a string, the engine's
  (on reading \<open>address\<close> of \<open>undefined\<close>) for the empty array. Nothing is returned, so no
  RCPT command is issued and no callback is invoked; the same holds when the step is
  entered through the step wrapper.
\<close>

theorem sendrcpt_faults:
  assumes "stack_to stack = Null \<or> (\<exists>x. stack_to stack = Str x) \<or> stack_to stack = Arr []"
  shows "sendrcpt stack c =
           Inl (TypeError (if stack_to stack = Arr []
                           then ''cannot read property address of undefined''
                           else ''stack.to must be array'')) \<and>
         sendsmtp st stack (Some Sendrcpt) None c = sendrcpt stack c"
  using assms by (auto simp add: sendrcpt_def sendsmtp_def apply_next_def)

theorem sendrcpt_faults_witness:
  "stack_to (stackA\<lparr>stack_to := Arr []\<rparr>) = Arr [] \<and>
   sendrcpt (stackA\<lparr>stack_to := Arr []\<rparr>) busy =
     Inl (TypeError ''cannot read property address of undefined'') \<and>
   sendsmtp CONNECTED (stackA\<lparr>stack_to := Arr []\<rparr>) (Some Sendrcpt) None busy =
     Inl (TypeError ''cannot read property address of undefined'') \<and>
   sendrcpt (stackA\<lparr>stack_to := Null\<rparr>) busy = Inl (TypeError ''stack.to must be array'') \<and>
   sendrcpt (stackA\<lparr>stack_to := Str ''b@y.com''\<rparr>) busy =
     Inl (TypeError ''stack.to must be array'')"
  using sendrcpt_faults [of "stackA\<lparr>stack_to := Arr []\<rparr>" busy CONNECTED]
    sendrcpt_faults [of "stackA\<lparr>stack_to := Null\<rparr>" busy CONNECTED]
    sendrcpt_faults [of "stackA\<lparr>stack_to := Str ''b@y.com''\<rparr>" busy CONNECTED]
  by simp

text \<open>
  C10. For a message that the validation accepts and whose \<open>from\<close> header parses to no
  address, the continuation of the validation throws on reading \<open>address\<close> of
  \<open>undefined\<close>: it returns no client state, so the message is not appended to the queue
  and no callback is invoked.
\<close>

theorem empty_from_throws:
  assumes "ap (header_from m) = []"
  shows "valid_cb ap st m cb msg True why c =
           Inl (TypeError ''cannot read property address of undefined'')"
  using assms by (simp add: valid_cb_def build_stack_def)

theorem empty_from_throws_witness:
  "simple_parser (header_from msgD) = [] \<and>
   valid_cb simple_parser NOTCONNECTED msgD (Some 0) (Instance msgD) True [] new_client =
     Inl (TypeError ''cannot read property address of undefined'')"
proof -
  have e: "simple_parser (header_from msgD) = []"
    by (simp add: simple_parser_def msgD_def)
  from e empty_from_throws [of simple_parser msgD NOTCONNECTED "Some 0" "Instance msgD" "[]"
      new_client]
  show ?thesis by simp
qed

subsection \<open>The validator\<close>

text \<open>
  C6, as the code has it. A plain record that lacks a sender, or all of \<open>to\<close>, \<open>cc\<close>
  and \<open>bcc\<close>, or both a text and an inlined alternative attachment, is rejected at
  once: the callback, when one is given, is invoked with the one reason
  "message is not a valid Message instance", whatever the defect, and nothing else of
  the client changes: the queue is as it was and no collaborator is called. A reason
  that names a defect is the message entity's: when its validation rejects a message,
  the callback gets that reason, and again nothing else changes.
\<close>

theorem unsendable_record_rejected:
  assumes "\<not> truthy (h_from h) \<or>
           (\<not> truthy (h_to h) \<and> \<not> truthy (h_cc h) \<and> \<not> truthy (h_bcc h)) \<or>
           (h_text h = None \<and> \<not> containsInlinedHtml (h_attachment h))"
  shows "send mk (Plain h) (Some f) c =
           Inr (c\<lparr>calls := calls c @
                  [Callback (Some f) (Some (Error ''message is not a valid Message instance''))
                     (Plain h)]\<rparr>) \<and>
         valid_cb ap st m (Some f) msg False why c =
           Inr (c\<lparr>calls := calls c @ [Callback (Some f) (Some (Error why)) msg]\<rparr>)"
proof -
  from assms have "\<not> canMakeMessage h"
    by (auto simp add: canMakeMessage_def)
  then show ?thesis
    by (simp add: send_def valid_cb_def call_callback_def emit_def)
qed

theorem unsendable_record_rejected_witness:
  "\<not> truthy (h_to no_recipients) \<and> \<not> truthy (h_cc no_recipients) \<and>
   \<not> truthy (h_bcc no_recipients) \<and>
   send copy_headers (Plain no_recipients) (Some 7) queued =
     Inr (queued\<lparr>calls :=
       [Callback (Some 7) (Some (Error ''message is not a valid Message instance''))
          (Plain no_recipients)]\<rparr>) \<and>
   valid_cb simple_parser NOTCONNECTED msgA (Some 7) (Instance msgA) False
       ''message does not have a valid recipient'' queued =
     Inr (queued\<lparr>calls :=
       [Callback (Some 7) (Some (Error ''message does not have a valid recipient''))
          (Instance msgA)]\<rparr>)"
proof -
  have h: "\<not> truthy (h_to no_recipients) \<and> \<not> truthy (h_cc no_recipients) \<and>
     \<not> truthy (h_bcc no_recipients)"
    by (simp add: no_recipients_def truthy_def)
  then have "\<not> truthy (h_from no_recipients) \<or>
           (\<not> truthy (h_to no_recipients) \<and> \<not> truthy (h_cc no_recipients) \<and>
            \<not> truthy (h_bcc no_recipients)) \<or>
           (h_text no_recipients = None \<and> \<not> containsInlinedHtml (h_attachment no_recipients))"
    by blast
  from h unsendable_record_rejected [OF this, of copy_headers 7 queued simple_parser NOTCONNECTED
      msgA "Instance msgA" "''message does not have a valid recipient''"]
  show ?thesis by (simp add: queued_def new_client_def)
qed

text \<open>The claim as written fails: for a record with a sender and no recipient field the
  reason does not mention recipients, and it is the reason a record without a sender
  gets as well.\<close>

theorem unsendable_record_reason_counterexample:
  "truthy (h_from no_recipients) \<and> \<not> truthy (h_to no_recipients) \<and>
   \<not> truthy (h_cc no_recipients) \<and> \<not> truthy (h_bcc no_recipients) \<and>
   send copy_headers (Plain no_recipients) (Some 7) new_client =
     Inr (new_client\<lparr>calls :=
       [Callback (Some 7) (Some (Error ''message is not a valid Message instance''))
          (Plain no_recipients)]\<rparr>) \<and>
   \<not> contains ''message is not a valid Message instance'' ''recipient'' \<and>
   \<not> truthy (h_from no_sender) \<and> truthy (h_to no_sender) \<and>
   send copy_headers (Plain no_sender) (Some 7) new_client =
     Inr (new_client\<lparr>calls :=
       [Callback (Some 7) (Some (Error ''message is not a valid Message instance''))
          (Plain no_sender)]\<rparr>)"
  by (simp add: send_def canMakeMessage_def call_callback_def emit_def truthy_def
      no_recipients_def no_sender_def new_client_def)

subsection \<open>The envelope sender\<close>

text \<open>
  C8, as the code has it. The argument of MAIL for the stack built from an accepted
  message is \<open><address>\<close>, where the address is the first address parsed from the
  \<open>return-path\<close> header when that header is a non-empty string, parses to a non-empty
  list and that first address is not the empty string, and the first address parsed
  from \<open>from\<close> in every other case.
\<close>

theorem envelope_from:
  assumes "build_stack ap m cb = Inr stack"
  shows "calls (sendmail stack c) =
           calls c @
           [SmtpMail (KSendsmtp stack (Some Sendrcpt))
              (''<'' @
               (if truthy (header_return_path m) \<and> ap (header_return_path m) \<noteq> [] \<and>
                   address (hd (ap (header_return_path m))) \<noteq> []
                then address (hd (ap (header_return_path m)))
                else address (hd (ap (header_from m)))) @ ''>'')]"
  using assms
  by (auto simp add: build_stack_def sendmail_def emit_def Let_def split: list.splits)

theorem envelope_from_witness:
  "build_stack simple_parser msgC None = Inr stackC \<and>
   calls (sendmail stackC new_client) =
     [SmtpMail (KSendsmtp stackC (Some Sendrcpt)) ''<bounce@x.com>''] \<and>
   build_stack simple_parser msgA (Some 0) = Inr stackA \<and>
   calls (sendmail stackA new_client) =
     [SmtpMail (KSendsmtp stackA (Some Sendrcpt)) ''<a@x.com>'']"
proof -
  have c: "build_stack simple_parser msgC None = Inr stackC"
    by (simp add: build_stack_def simple_parser_def msgC_def stackC_def truthy_def)
  have a: "build_stack simple_parser msgA (Some 0) = Inr stackA"
    by (simp add: build_stack_def simple_parser_def msgA_def stackA_def truthy_def)
  from a c envelope_from [OF c, of new_client] envelope_from [OF a, of new_client]
  show ?thesis
    by (simp add: simple_parser_def msgA_def msgC_def truthy_def new_client_def)
qed

text \<open>The claim as written fails when the first address parsed from \<open>return-path\<close> is
  the empty string (a header that holds a name and no address): the header is present
  and parses to one entry, and MAIL carries the sender parsed from \<open>from\<close>.\<close>

theorem return_path_override_counterexample:
  "truthy (header_return_path msgB) \<and>
   simple_parser (header_return_path msgB) = [\<lparr>address = []\<rparr>] \<and>
   build_stack simple_parser msgB (Some 1) = Inr stackB \<and>
   calls (sendmail stackB new_client) =
     [SmtpMail (KSendsmtp stackB (Some Sendrcpt)) ''<a@x.com>''] \<and>
   ''<a@x.com>'' \<noteq> ''<'' @ address (hd (simple_parser (header_return_path msgB))) @ ''>''"
  by (simp add: build_stack_def simple_parser_def msgB_def stackB_def truthy_def
      sendmail_def emit_def new_client_def)

subsection \<open>The recipients\<close>

lemma rcpt_args_append: "rcpt_args (xs @ ys) = rcpt_args xs @ rcpt_args ys"
  by (induction xs rule: rcpt_args.induct) simp_all

lemma accept1_rcpt:
  assumes "pending c = P @ [KSendsmtp s (Some Sendrcpt)]" and "stack_to s = Arr (r # rs)"
  shows "accept1 st c =
     Inr (c\<lparr>calls := calls c @
               [SmtpRcpt (KSendsmtp (s\<lparr>stack_to := Arr rs\<rparr>)
                   (Some (if rs \<noteq> [] then Sendrcpt else Senddata)))
                 (''<'' @ address r @ ''>'')],
             pending := P @
               [KSendsmtp (s\<lparr>stack_to := Arr rs\<rparr>)
                  (Some (if rs \<noteq> [] then Sendrcpt else Senddata))]\<rparr>)"
  using assms by (simp add: accept1_def sendsmtp_def apply_next_def sendrcpt_issue)

lemma accept_rcpts:
  "pending c = P @ [KSendsmtp s (Some Sendrcpt)] \<Longrightarrow> stack_to s = Arr rs \<Longrightarrow> rs \<noteq> [] \<Longrightarrow>
   \<exists>c'. accept (length rs) st c = Inr c' \<and>
        rcpt_args (calls c') = rcpt_args (calls c) @ map (\<lambda>r. ''<'' @ address r @ ''>'') rs \<and>
        pending c' = P @ [KSendsmtp (s\<lparr>stack_to := Arr []\<rparr>) (Some Senddata)]"
proof (induction rs arbitrary: c s)
  case Nil
  then show ?case by simp
next
  case (Cons r rs)
  let ?s = "s\<lparr>stack_to := Arr rs\<rparr>"
  let ?k = "KSendsmtp ?s (Some (if rs \<noteq> [] then Sendrcpt else Senddata))"
  let ?c = "c\<lparr>calls := calls c @ [SmtpRcpt ?k (''<'' @ address r @ ''>'')], pending := P @ [?k]\<rparr>"
  have first: "accept1 st c = Inr ?c"
    using Cons.prems(1,2) by (rule accept1_rcpt)
  show ?case
  proof (cases "rs = []")
    case True
    with first show ?thesis
      by (simp add: rcpt_args_append)
  next
    case False
    have "pending ?c = P @ [KSendsmtp ?s (Some Sendrcpt)]" and "stack_to ?s = Arr rs"
      using False by simp_all
    from Cons.IH [OF this False]
    obtain c' where c': "accept (length rs) st ?c = Inr c'"
      "rcpt_args (calls c') = rcpt_args (calls ?c) @ map (\<lambda>r. ''<'' @ address r @ ''>'') rs"
      "pending c' = P @ [KSendsmtp (?s\<lparr>stack_to := Arr []\<rparr>) (Some Senddata)]"
      by blast
    from first c' show ?thesis
      by (simp add: rcpt_args_append)
  qed
qed

lemma build_stack_to:
  assumes "ap None = []" and "ap (Some []) = []" and "build_stack ap m cb = Inr stack"
  shows "stack_to stack = Arr (ap (header_to m) @ ap (header_cc m) @ ap (header_bcc m))"
proof -
  have "\<not> truthy h \<Longrightarrow> ap h = []" for h
    using assms(1,2) by (cases h) (auto simp add: truthy_def)
  with assms(3) show ?thesis
    by (auto simp add: build_stack_def Let_def split: list.splits)
qed

text \<open>
  C4. The stack built for an accepted message holds, as its recipients, the parse of
  \<open>to\<close>, then the parse of \<open>cc\<close> when that header is a non-empty string, then the
  parse of \<open>bcc\<close> when that header is a non-empty string, nothing removed. With an
  address parser that yields no entry for an absent or empty header, that is the parse
  of \<open>to\<close>, then of \<open>cc\<close>, then of \<open>bcc\<close>; the continuation of the validation
  appends that stack to the queue and polls. For a
  stack with recipients \<open>rs\<close>, once MAIL is issued and the transport accepts each
  command in turn, the RCPT commands issued are one per entry of \<open>rs\<close>, in the order of
  \<open>rs\<close>, each address between \<open><\<close> and \<open>>\<close>; after the last of them is accepted DATA
  follows.
\<close>

theorem recipients_in_order:
  "(build_stack ap m cb = Inr built \<longrightarrow>
      stack_to built =
        Arr (ap (header_to m) @
             (if truthy (header_cc m) then ap (header_cc m) else []) @
             (if truthy (header_bcc m) then ap (header_bcc m) else []))) \<and>
   (ap None = [] \<and> ap (Some []) = [] \<and> build_stack ap m cb = Inr built \<longrightarrow>
      stack_to built = Arr (ap (header_to m) @ ap (header_cc m) @ ap (header_bcc m)) \<and>
      valid_cb ap st m cb msg True why c = Inr (poll st (c\<lparr>queue := queue c @ [built]\<rparr>))) \<and>
   (stack_to stack = Arr rs \<and> rs \<noteq> [] \<longrightarrow>
      (\<exists>c'. accept (length rs) st (sendmail stack c) = Inr c' \<and>
         rcpt_args (calls c') = rcpt_args (calls c) @ map (\<lambda>r. ''<'' @ address r @ ''>'') rs \<and>
         (\<exists>c''. accept1 st c' = Inr c'' \<and>
            calls c'' =
              calls c' @ [SmtpData (KSendsmtp (stack\<lparr>stack_to := Arr []\<rparr>) (Some Sendmessage))])))"
proof (intro conjI impI)
  assume "build_stack ap m cb = Inr built"
  then show "stack_to built =
        Arr (ap (header_to m) @
             (if truthy (header_cc m) then ap (header_cc m) else []) @
             (if truthy (header_bcc m) then ap (header_bcc m) else []))"
    by (auto simp add: build_stack_def Let_def split: list.splits)
next
  assume a: "ap None = [] \<and> ap (Some []) = [] \<and> build_stack ap m cb = Inr built"
  then show "stack_to built = Arr (ap (header_to m) @ ap (header_cc m) @ ap (header_bcc m))"
    using build_stack_to [of ap m cb built] by blast
  from a show "valid_cb ap st m cb msg True why c = Inr (poll st (c\<lparr>queue := queue c @ [built]\<rparr>))"
    by (simp add: valid_cb_def)
next
  assume a: "stack_to stack = Arr rs \<and> rs \<noteq> []"
  have p: "pending (sendmail stack c) = pending c @ [KSendsmtp stack (Some Sendrcpt)]"
    by (simp add: sendmail_def emit_def Let_def)
  from accept_rcpts [OF p, of rs st] a
  obtain c' where c': "accept (length rs) st (sendmail stack c) = Inr c'"
    "rcpt_args (calls c') =
       rcpt_args (calls (sendmail stack c)) @ map (\<lambda>r. ''<'' @ address r @ ''>'') rs"
    "pending c' = pending c @ [KSendsmtp (stack\<lparr>stack_to := Arr []\<rparr>) (Some Senddata)]"
    by blast
  have m: "rcpt_args (calls (sendmail stack c)) = rcpt_args (calls c)"
    by (simp add: sendmail_def emit_def Let_def rcpt_args_append)
  have d: "accept1 st c' =
      Inr (senddata (stack\<lparr>stack_to := Arr []\<rparr>) (c'\<lparr>pending := pending c\<rparr>))"
    using c'(3) by (simp add: accept1_def sendsmtp_def apply_next_def)
  have "calls (senddata (stack\<lparr>stack_to := Arr []\<rparr>) (c'\<lparr>pending := pending c\<rparr>)) =
      calls c' @ [SmtpData (KSendsmtp (stack\<lparr>stack_to := Arr []\<rparr>) (Some Sendmessage))]"
    by (simp add: senddata_def emit_def)
  with c'(1,2) m d
  show "\<exists>c'. accept (length rs) st (sendmail stack c) = Inr c' \<and>
         rcpt_args (calls c') = rcpt_args (calls c) @ map (\<lambda>r. ''<'' @ address r @ ''>'') rs \<and>
         (\<exists>c''. accept1 st c' = Inr c'' \<and>
            calls c'' =
              calls c' @ [SmtpData (KSendsmtp (stack\<lparr>stack_to := Arr []\<rparr>) (Some Sendmessage))])"
    by auto
qed

theorem recipients_in_order_witness:
  "simple_parser None = [] \<and> simple_parser (Some []) = [] \<and>
   build_stack simple_parser msgA (Some 0) = Inr stackA \<and>
   stack_to stackA = Arr [\<lparr>address = ''t1@y.com''\<rparr>, \<lparr>address = ''t2@y.com''\<rparr>,
                          \<lparr>address = ''c1@y.com''\<rparr>, \<lparr>address = ''t1@y.com''\<rparr>] \<and>
   queue (projr (valid_cb simple_parser CONNECTING msgA (Some 0) (Instance msgA) True [] queued)) =
     [stackA, stackB, stackA] \<and>
   rcpt_args (calls (projr (accept 4 CONNECTED (sendmail stackA new_client)))) =
     [''<t1@y.com>'', ''<t2@y.com>'', ''<c1@y.com>'', ''<t1@y.com>'']"
proof -
  let ?rs = "[\<lparr>address = ''t1@y.com''\<rparr>, \<lparr>address = ''t2@y.com''\<rparr>,
              \<lparr>address = ''c1@y.com''\<rparr>, \<lparr>address = ''t1@y.com''\<rparr>]"
  have p: "simple_parser None = [] \<and> simple_parser (Some []) = []"
    by (simp add: simple_parser_def)
  have b: "build_stack simple_parser msgA (Some 0) = Inr stackA"
    by (simp add: build_stack_def simple_parser_def msgA_def stackA_def truthy_def)
  have t: "stack_to stackA = Arr ?rs \<and> ?rs \<noteq> []"
    by (simp add: stackA_def)
  note inst = recipients_in_order [of simple_parser msgA "Some 0" stackA CONNECTING "Instance msgA"
      "[]" queued stackA ?rs]
  from inst p b have "valid_cb simple_parser CONNECTING msgA (Some 0) (Instance msgA) True [] queued =
      Inr (poll CONNECTING (queued\<lparr>queue := queue queued @ [stackA]\<rparr>))"
    by blast
  then have q: "queue (projr (valid_cb simple_parser CONNECTING msgA (Some 0) (Instance msgA)
      True [] queued)) = [stackA, stackB, stackA]"
    by (simp add: queued_def new_client_def poll_defs)
  note inst' = recipients_in_order [of simple_parser msgA "Some 0" stackA CONNECTED "Instance msgA"
      "[]" new_client stackA ?rs]
  have len: "length ?rs = 4"
    by simp
  from inst' t obtain c' where run: "accept (length ?rs) CONNECTED (sendmail stackA new_client) = Inr c'"
    and args: "rcpt_args (calls c') =
       rcpt_args (calls new_client) @ map (\<lambda>r. ''<'' @ address r @ ''>'') ?rs"
    by blast
  from run have "accept 4 CONNECTED (sendmail stackA new_client) = Inr c'"
    by (simp only: len)
  with args have r: "rcpt_args (calls (projr (accept 4 CONNECTED (sendmail stackA new_client)))) =
     [''<t1@y.com>'', ''<t2@y.com>'', ''<c1@y.com>'', ''<t1@y.com>'']"
    by (simp add: new_client_def)
  from p b t q r show ?thesis by simp
qed

subsection \<open>One envelope run at a time\<close>

lemma filter_remove1_other: "\<not> P k \<Longrightarrow> filter P (remove1 k xs) = filter P xs"
  by (induction xs) auto

lemma filter_remove1_length:
  "P k \<Longrightarrow> k \<in> set xs \<Longrightarrow> Suc (length (filter P (remove1 k xs))) = length (filter P xs)"
  by (induction xs) auto

lemma poll_single_flight: "single_flight c \<Longrightarrow> single_flight (poll st c)"
  by (auto simp add: single_flight_def poll_defs split: option.splits if_splits)

lemma consume_other: "\<not> envelope k \<Longrightarrow> single_flight c \<Longrightarrow> single_flight (consume k c)"
  by (simp add: single_flight_def consume_def filter_remove1_other)

lemma consume_envelope:
  assumes "envelope k" and "k \<in> set (pending c)" and "single_flight c"
  shows "sending (consume k c) \<and> filter envelope (pending (consume k c)) = []"
proof -
  from assms(1,2) have "Suc (length (filter envelope (remove1 k (pending c)))) =
      length (filter envelope (pending c))"
    by (rule filter_remove1_length)
  with assms(3) show ?thesis
    by (auto simp add: single_flight_def consume_def split: if_splits)
qed

lemma senddone_single_flight:
  assumes "filter envelope (pending c) = []"
  shows "single_flight (senddone st err stack c)"
proof -
  from assms have "single_flight
      (c\<lparr>sending := False,
         calls := calls c @ [Callback (callback stack) err (Instance (message stack))]\<rparr>)"
    by (simp add: single_flight_def)
  then show ?thesis
    unfolding senddone_eq by (rule poll_single_flight)
qed

lemma send_single_flight:
  "single_flight c \<Longrightarrow> send mk msg cb c = Inr c' \<Longrightarrow> single_flight c'"
  by (auto simp add: send_def call_callback_def emit_def single_flight_def Let_def
      split: option.splits send_arg.splits if_splits)

lemma valid_cb_single_flight:
  assumes "single_flight c" and "valid_cb ap st m cb msg valid why c = Inr c'"
  shows "single_flight c'"
proof (cases valid)
  case True
  with assms(2) obtain stack where "c' = poll st (c\<lparr>queue := queue c @ [stack]\<rparr>)"
    by (auto simp add: valid_cb_def split: sum.splits)
  moreover from assms(1) have "single_flight (c\<lparr>queue := queue c @ [stack]\<rparr>)"
    by (simp add: single_flight_def)
  ultimately show ?thesis
    by (simp add: poll_single_flight)
next
  case False
  with assms show ?thesis
    by (auto simp add: valid_cb_def call_callback_def emit_def single_flight_def
        split: option.splits)
qed

lemma connect_cb_single_flight:
  assumes "single_flight c"
  shows "single_flight (connect_cb st auth stack err c)"
proof (cases err)
  case None
  with assms show ?thesis
    by (auto simp add: connect_cb_def emit_def single_flight_def split: if_splits)
next
  case (Some e)
  from assms have "single_flight
      (c\<lparr>calls := calls c @ [Callback (callback stack) (Some e) (Instance (message stack))],
         queue := tl (queue c)\<rparr>)"
    by (simp add: single_flight_def)
  with Some show ?thesis
    by (simp add: connect_cb_failure poll_single_flight)
qed

lemma begin_cb_single_flight:
  assumes "single_flight c"
  shows "single_flight (begin_cb st stack err c)"
proof (cases err)
  case None
  from assms have "single_flight (c\<lparr>ready := True\<rparr>)"
    by (simp add: single_flight_def)
  with None show ?thesis
    by (simp add: begin_cb_def poll_single_flight)
next
  case (Some e)
  from assms have "single_flight
      (c\<lparr>calls := calls c @ [Callback (callback stack) (Some e) (Instance (message stack))],
         queue := tl (queue c)\<rparr>)"
    by (simp add: single_flight_def)
  with Some show ?thesis
    by (simp add: begin_cb_failure poll_single_flight)
qed

lemma sendsmtp_single_flight:
  assumes "sending c" and "filter envelope (pending c) = []"
    and "sendsmtp st stack next err c = Inr c'"
  shows "single_flight c'"
proof (cases "err = None \<and> next \<noteq> None")
  case False
  with assms have "c' = emit (SmtpRset (KRset err stack)) c"
    by (auto simp add: sendsmtp_def split: option.splits)
  with assms(1,2) show ?thesis
    by (auto simp add: emit_def single_flight_def split: if_splits)
next
  case True
  then obtain n where n: "next = Some n" and e: "err = None"
    by auto
  show ?thesis
  proof (cases n)
    case Sendrcpt
    with assms n e show ?thesis
      by (auto simp add: sendsmtp_def apply_next_def sendrcpt_def emit_def single_flight_def
          split: recipients.splits list.splits)
  next
    case Senddata
    with assms n e show ?thesis
      by (auto simp add: sendsmtp_def apply_next_def senddata_def emit_def single_flight_def)
  next
    case Sendmessage
    with assms n e show ?thesis
      by (auto simp add: sendsmtp_def apply_next_def sendmessage_def emit_def single_flight_def)
  next
    case Done
    with assms(3) n e have "c' = senddone st None stack c"
      by (simp add: sendsmtp_def apply_next_def)
    with assms(2) show ?thesis
      by (simp add: senddone_single_flight)
  qed
qed

lemma stream_error_single_flight:
  "filter envelope (pending c) = [] \<Longrightarrow> single_flight (stream_error st stack e c)"
  by (simp add: stream_error_def senddone_single_flight emit_def)

lemma reachable_single_flight: "reachable c \<Longrightarrow> single_flight c"
proof (induction rule: reachable.induct)
  case start
  show ?case by (simp add: single_flight_def new_client_def)
next
  case (submit c mk msg cb c')
  then show ?case by (blast intro: send_single_flight)
next
  case (verdict c m cb msg ap st valid why c')
  from verdict.IH have "single_flight (consume (KValid m cb msg) c)"
    by (simp add: consume_other)
  with verdict.hyps(3) show ?case by (blast intro: valid_cb_single_flight)
next
  case (connected c s st auth err)
  from connected.IH have "single_flight (consume (KConnect s) c)"
    by (simp add: consume_other)
  then show ?case by (rule connect_cb_single_flight)
next
  case (begun c s st err)
  from begun.IH have "single_flight (consume (KBegin s) c)"
    by (simp add: consume_other)
  then show ?case by (rule begin_cb_single_flight)
next
  case (step c s n st err c')
  have "sending (consume (KSendsmtp s n) c) \<and>
      filter envelope (pending (consume (KSendsmtp s n) c)) = []"
    using step.hyps(2) step.IH by (intro consume_envelope) simp_all
  with step.hyps(3) show ?case by (blast intro: sendsmtp_single_flight)
next
  case (reset c e s st outcome)
  have "sending (consume (KRset e s) c) \<and> filter envelope (pending (consume (KRset e s) c)) = []"
    using reset.hyps(2) reset.IH by (intro consume_envelope) simp_all
  then show ?case by (simp add: rset_cb_def senddone_single_flight)
next
  case (chunk c s d)
  then show ?case by (auto simp add: stream_data_def emit_def single_flight_def split: if_splits)
next
  case (ended c s)
  have "sending (consume (KStream s) c) \<and> filter envelope (pending (consume (KStream s) c)) = []"
    using ended.hyps(2) ended.IH by (intro consume_envelope) simp_all
  then show ?case by (auto simp add: stream_end_def emit_def single_flight_def split: if_splits)
next
  case (failed c s st e)
  have "sending (consume (KStream s) c) \<and> filter envelope (pending (consume (KStream s) c)) = []"
    using failed.hyps(2) failed.IH by (intro consume_envelope) simp_all
  then show ?case by (simp add: stream_error_single_flight)
next
  case (fired c t ms)
  then show ?case by (auto simp add: timer_fired_def emit_def single_flight_def split: if_splits)
qed

lemma poll_keeps_queue_while_sending: "sending c \<Longrightarrow> queue (poll st c) = queue c"
  by (simp add: poll_defs split: option.splits)

text \<open>
  C9. \<open>_sendmail\<close> sets \<open>sending\<close> as it issues MAIL; \<open>_senddone\<close> clears it, then
  invokes the callback, then polls; and while \<open>sending\<close> is set the poll removes
  nothing from the queue. In every state the client reaches with collaborators that
  keep to their interface (see \<open>reachable\<close>), \<open>sending\<close> is set exactly when a
  continuation of an envelope run is pending, and at most one such continuation is
  pending: no two envelope runs are under way at once.
\<close>

theorem sending_single_flight:
  "sending (sendmail stack c) \<and>
   (\<exists>a. calls (sendmail stack c) = calls c @ [SmtpMail (KSendsmtp stack (Some Sendrcpt)) a]) \<and>
   senddone st err stack c =
     poll st (c\<lparr>sending := False,
               calls := calls c @ [Callback (callback stack) err (Instance (message stack))]\<rparr>) \<and>
   (sending c \<longrightarrow> queue (poll st c) = queue c) \<and>
   (reachable c \<longrightarrow>
      sending c = (filter envelope (pending c) \<noteq> []) \<and>
      length (filter envelope (pending c)) \<le> 1)"
proof -
  have mail: "sending (sendmail stack c)"
    "\<exists>a. calls (sendmail stack c) = calls c @ [SmtpMail (KSendsmtp stack (Some Sendrcpt)) a]"
    by (simp_all add: sendmail_def emit_def Let_def)
  have inv: "reachable c \<longrightarrow>
      sending c = (filter envelope (pending c) \<noteq> []) \<and>
      length (filter envelope (pending c)) \<le> 1"
  proof
    assume "reachable c"
    then have "single_flight c" by (rule reachable_single_flight)
    then show "sending c = (filter envelope (pending c) \<noteq> []) \<and>
      length (filter envelope (pending c)) \<le> 1"
      by (auto simp add: single_flight_def split: if_splits)
  qed
  have keep: "sending c \<longrightarrow> queue (poll st c) = queue c"
    by (simp add: poll_keeps_queue_while_sending)
  from mail senddone_eq [of st err stack c] keep inv show ?thesis
    by (intro conjI)
qed

theorem sending_single_flight_witness:
  "reachable sending_A \<and> sending sending_A \<and>
   filter envelope (pending sending_A) = [KSendsmtp stackA (Some Sendrcpt)] \<and>
   queue (poll CONNECTED (sending_A\<lparr>queue := [stackB]\<rparr>)) = [stackB]"
proof -
  let ?k = "KValid msgA (Some 0) (Instance msgA)"
  let ?w1 = "new_client\<lparr>calls := [MessageValid msgA ?k], pending := [?k]\<rparr>"
  let ?w2 = "new_client\<lparr>queue := [stackA],
     calls := [MessageValid msgA ?k, SmtpConnect (KConnect stackA)],
     pending := [KConnect stackA]\<rparr>"
  let ?w3 = "new_client\<lparr>queue := [stackA],
     calls := [MessageValid msgA ?k, SmtpConnect (KConnect stackA), SmtpLogin (KBegin stackA)],
     pending := [KBegin stackA]\<rparr>"
  have s1: "send copy_headers (Instance msgA) (Some 0) new_client = Inr ?w1"
    by (simp add: send_def emit_def new_client_def)
  have r1: "reachable ?w1"
    by (rule reachable.submit [OF reachable.start s1])
  have s2: "valid_cb simple_parser NOTCONNECTED msgA (Some 0) (Instance msgA) True []
      (consume ?k ?w1) = Inr ?w2"
    by (simp add: emit_def new_client_def valid_cb_def consume_def poll_defs
        build_stack_def simple_parser_def msgA_def stackA_def truthy_def)
  have r2: "reachable ?w2"
    by (rule reachable.verdict [OF r1 _ s2]) (simp add: new_client_def)
  have s3: "connect_cb CONNECTED False stackA None (consume (KConnect stackA) ?w2) = ?w3"
    by (simp add: emit_def new_client_def consume_def connect_cb_def)
  have "reachable (connect_cb CONNECTED False stackA None (consume (KConnect stackA) ?w2))"
    by (rule reachable.connected [OF r2]) (simp add: new_client_def)
  with s3 have r3: "reachable ?w3"
    by simp
  have s4: "begin_cb CONNECTED stackA None (consume (KBegin stackA) ?w3) = sending_A"
    by (simp add: emit_def new_client_def consume_def begin_cb_def poll_defs sending_A_def
        stackA_def)
  have "reachable (begin_cb CONNECTED stackA None (consume (KBegin stackA) ?w3))"
    by (rule reachable.begun [OF r3]) (simp add: new_client_def)
  with s4 have r4: "reachable sending_A"
    by simp
  have s: "sending sending_A"
    by (simp add: sending_A_def new_client_def)
  have "sending (sending_A\<lparr>queue := [stackB]\<rparr>)"
    by (simp add: sending_A_def new_client_def)
  with sending_single_flight [of stackA "sending_A\<lparr>queue := [stackB]\<rparr>" CONNECTED None]
  have q: "queue (poll CONNECTED (sending_A\<lparr>queue := [stackB]\<rparr>)) = [stackB]"
    by simp
  have p: "filter envelope (pending sending_A) = [KSendsmtp stackA (Some Sendrcpt)]"
    by (simp add: sending_A_def new_client_def)
  from r4 s p q sending_single_flight [of stackA sending_A CONNECTED None]
  show ?thesis by simp
qed

end
